theory Spec2Isabelle
  imports Main
begin

section \<open>Presence tracking: the Session class of src/browser/session.ts\<close>

subsection \<open>JavaScript numbers as the class uses them\<close>

text \<open>
  The two time fields of the class are declared without an initialiser, so they hold
  \<open>undefined\<close> until first assigned. Tick counts and idle durations are whole
  milliseconds. Subtracting with \<open>undefined\<close> on either side gives \<open>NaN\<close>
  and never throws.
\<close>

datatype jsnum = Undefined | NaN | Num int

fun js_sub :: "jsnum \<Rightarrow> jsnum \<Rightarrow> jsnum" where
  "js_sub (Num a) (Num b) = Num (a - b)"
| "js_sub _ _ = NaN"

text \<open>Truthiness: \<open>undefined\<close>, \<open>NaN\<close> and \<open>0\<close> are falsy.\<close>

fun truthy :: "jsnum \<Rightarrow> bool" where
  "truthy (Num n) = (n \<noteq> 0)"
| "truthy _ = False"

text \<open>The operator \<open>a || b\<close>.\<close>

definition js_or :: "jsnum \<Rightarrow> jsnum \<Rightarrow> jsnum" where
  "js_or a b = (if truthy a then a else b)"

subsection \<open>External collaborators\<close>

text \<open>
  What the platform returns to the calls made during one callback, in the order the
  callback makes them: \<open>app.getTickCount()\<close>, \<open>idleState.isIdle()\<close>,
  \<open>idleState.elapsedTime()\<close> as read by the poll callback, and
  \<open>idleState.elapsedTime()\<close> as read later inside \<open>fireIdleEvent\<close>.
\<close>

record env =
  getTickCount :: int
  isIdle :: bool
  elapsedTime :: int
  elapsedTime_emit :: int

text \<open>
  Modelled from the spec: \<open>nativeTimer\<close> is imported from the host runtime and is
  not part of the sources. The spec gives each timer a running flag and an interval;
  \<open>stop\<close> clears the flag and is idempotent, \<open>reset\<close> (re)starts the timer,
  \<open>isRunning\<close> reads the flag, and a stopped timer does not call its callback.
\<close>

record nativeTimer =
  running :: bool
  interval :: nat

definition stop :: "nativeTimer \<Rightarrow> nativeTimer" where
  "stop t = t\<lparr>running := False\<rparr>"

definition reset :: "nativeTimer \<Rightarrow> nativeTimer" where
  "reset t = t\<lparr>running := True\<rparr>"

definition isRunning :: "nativeTimer \<Rightarrow> bool" where
  "isRunning t = running t"

subsection \<open>Events\<close>

datatype payload =
  IdleStateChanged jsnum bool string string
| SessionEnd string string string
| SessionChanged string string string

type_synonym event = "string \<times> payload"

subsection \<open>The Session object\<close>

record Session =
  idleEventTimer :: nativeTimer
  checkIdleStateTimer :: nativeTimer
  idleStartTime :: jsnum
  idleEndTime :: jsnum
  emitted :: "event list"

definition emit :: "string \<Rightarrow> payload \<Rightarrow> Session \<Rightarrow> Session" where
  "emit name p s = s\<lparr>emitted := emitted s @ [(name, p)]\<rparr>"

definition fireIdleEvent :: "env \<Rightarrow> bool \<Rightarrow> jsnum \<Rightarrow> Session \<Rightarrow> Session" where
  "fireIdleEvent e idle elapsed s =
     emit ''idle-state-changed''
       (IdleStateChanged (js_or elapsed (Num (elapsedTime_emit e))) idle
          ''system'' ''idle-state-changed'') s"

definition fireSessionEndEvent :: "string \<Rightarrow> Session \<Rightarrow> Session" where
  "fireSessionEndEvent reason s =
     emit ''session-end'' (SessionEnd reason ''system'' ''session-end'') s"

definition fireSessionEvent :: "string \<Rightarrow> Session \<Rightarrow> Session" where
  "fireSessionEvent reason s =
     emit ''session-changed'' (SessionChanged reason ''system'' ''session-changed'') s"

definition handleLock :: "env \<Rightarrow> bool \<Rightarrow> Session \<Rightarrow> Session" where
  "handleLock e locked s =
     (if locked then
        (let s1 = s\<lparr>checkIdleStateTimer := stop (checkIdleStateTimer s)\<rparr> in
         if \<not> isRunning (idleEventTimer s1) then
           (let s2 = s1\<lparr>idleStartTime := Num (getTickCount e)\<rparr>;
                s3 = fireIdleEvent e True Undefined s2
            in s3\<lparr>idleEventTimer := reset (idleEventTimer s3)\<rparr>)
         else s1)
      else
        (let s1 = s\<lparr>idleEventTimer := stop (idleEventTimer s)\<rparr>;
             s2 = s1\<lparr>idleEndTime := Num (getTickCount e)\<rparr>;
             s3 = fireIdleEvent e False (js_sub (idleEndTime s2) (idleStartTime s2)) s2
         in s3\<lparr>checkIdleStateTimer := reset (checkIdleStateTimer s3)\<rparr>))"

text \<open>The callback given to \<open>idleEventTimer\<close> (the heartbeat).\<close>

definition idleEventTimer_callback :: "env \<Rightarrow> Session \<Rightarrow> Session" where
  "idleEventTimer_callback e s =
     fireIdleEvent e True (js_sub (Num (getTickCount e)) (idleStartTime s)) s"

text \<open>The callback given to \<open>checkIdleStateTimer\<close> (the poll).\<close>

definition checkIdleStateTimer_callback :: "env \<Rightarrow> Session \<Rightarrow> Session" where
  "checkIdleStateTimer_callback e s =
     (let idle = isIdle e;
          isTimerRunning = isRunning (idleEventTimer s);
          timeNow = Num (getTickCount e - elapsedTime e)
      in if idle \<and> \<not> isTimerRunning then
           (let s1 = s\<lparr>idleStartTime := timeNow\<rparr>;
                s2 = fireIdleEvent e True Undefined s1
            in s2\<lparr>idleEventTimer := reset (idleEventTimer s2)\<rparr>)
         else if \<not> idle \<and> isTimerRunning then
           (let s1 = s\<lparr>idleEndTime := timeNow\<rparr>;
                s2 = fireIdleEvent e False (js_sub (idleEndTime s1) (idleStartTime s1)) s1
            in s2\<lparr>idleEventTimer := stop (idleEventTimer s2)\<rparr>)
         else s)"

text \<open>
  The constructor: the heartbeat timer is created with 60000 ms and stopped at once, the
  poll timer is created with 1000 ms and reset at once; nothing is assigned to the two
  time fields and nothing is emitted.
\<close>

definition Session_new :: Session where
  "Session_new =
     \<lparr>idleEventTimer = stop \<lparr>running = True, interval = 60000\<rparr>,
      checkIdleStateTimer = reset \<lparr>running = True, interval = 1000\<rparr>,
      idleStartTime = Undefined,
      idleEndTime = Undefined,
      emitted = []\<rparr>"

subsection \<open>Window-message and notification hooks\<close>

text \<open>
  The two window-message hooks receive their parameter as a byte buffer and read it with
  \<open>readIntLE()\<close>, called without arguments, and \<open>readUInt32LE(0)\<close>. These reads
  belong to the host runtime, not to the sources, and what an argument-less
  \<open>readIntLE()\<close> returns differs between runtimes; a read may also throw. So the host
  is a parameter: its platform name and its two buffer reads, each returning a number or
  the exception it throws.
\<close>

datatype platform = Win32 | Darwin | Other

datatype exn = RangeError | TypeError

type_synonym buffer = "nat list"

record host =
  platform :: platform
  readIntLE :: "buffer \<Rightarrow> exn + int"
  readUInt32LE :: "buffer \<Rightarrow> nat \<Rightarrow> exn + int"

text \<open>The \<open>switch\<close> of the \<open>WM_QUERYENDSESSION\<close> hook on the number it read.\<close>

definition endSessionReason :: "int \<Rightarrow> string" where
  "endSessionReason code =
     (if code = 0 then ''logoff''
      else if code = 1 then ''restart or shutdown''
      else ''unknown'')"

text \<open>
  The hook reads the buffer three times (twice to log it, once for the \<open>switch\<close>);
  the first read that throws ends the hook with nothing assigned and nothing emitted.
\<close>

definition on_WM_QUERYENDSESSION :: "host \<Rightarrow> buffer \<Rightarrow> Session \<Rightarrow> exn + Session" where
  "on_WM_QUERYENDSESSION h lParam s =
     (case readIntLE h lParam of
        Inl x \<Rightarrow> Inl x
      | Inr logged \<Rightarrow>
          (case readUInt32LE h lParam 0 of
             Inl x \<Rightarrow> Inl x
           | Inr logged32 \<Rightarrow>
               (case readIntLE h lParam of
                  Inl x \<Rightarrow> Inl x
                | Inr code \<Rightarrow> Inr (fireSessionEndEvent (endSessionReason code) s))))"

text \<open>
  The \<open>switch\<close> of the \<open>WM_WTSSESSION_CHANGE\<close> hook: the reason string, and the
  \<open>handleLock\<close> call that cases 7 and 8 make before the event is fired.
\<close>

definition sessionChangeReason :: "int \<Rightarrow> string" where
  "sessionChangeReason code =
     (if code = 3 then ''remote-connect''
      else if code = 4 then ''remote-disconnect''
      else if code = 7 then ''lock''
      else if code = 8 then ''unlock''
      else ''unknown'')"

definition sessionChange :: "env \<Rightarrow> int \<Rightarrow> Session \<Rightarrow> Session" where
  "sessionChange e code s =
     (let s1 = (if code = 7 then handleLock e True s
                else if code = 8 then handleLock e False s
                else s)
      in fireSessionEvent (sessionChangeReason code) s1)"

definition on_WM_WTSSESSION_CHANGE :: "host \<Rightarrow> env \<Rightarrow> buffer \<Rightarrow> Session \<Rightarrow> exn + Session" where
  "on_WM_WTSSESSION_CHANGE h e wParam s =
     (case readIntLE h wParam of
        Inl x \<Rightarrow> Inl x
      | Inr code \<Rightarrow> Inr (sessionChange e code s))"

definition on_screenIsLocked :: "env \<Rightarrow> Session \<Rightarrow> Session" where
  "on_screenIsLocked e s = fireSessionEvent ''lock'' (handleLock e True s)"

definition on_screenIsUnlocked :: "env \<Rightarrow> Session \<Rightarrow> Session" where
  "on_screenIsUnlocked e s = fireSessionEvent ''unlock'' (handleLock e False s)"

text \<open>
  Two hosts to run the hooks on. On the first an argument-less \<open>readIntLE()\<close> returns
  the first byte of the buffer, on the second it throws; both read an unsigned 32-bit
  little-endian number with \<open>readUInt32LE\<close>, or throw when the buffer is too short.
\<close>

definition firstByte :: "buffer \<Rightarrow> exn + int" where
  "firstByte buf = (case buf of [] \<Rightarrow> Inl RangeError | b # bs \<Rightarrow> Inr (int b))"


definition uint32LE :: "buffer \<Rightarrow> nat \<Rightarrow> exn + int" where
  "uint32LE buf off =
     (if off + 4 \<le> length buf
      then Inr (int (buf ! off + 256 * buf ! (off + 1) + 65536 * buf ! (off + 2)
                     + 16777216 * buf ! (off + 3)))
      else Inl RangeError)"

definition firstByteHost :: "platform \<Rightarrow> host" where
  "firstByteHost p = \<lparr>platform = p, readIntLE = firstByte, readUInt32LE = uint32LE\<rparr>"


subsection \<open>Everything that can happen to a Session\<close>

datatype signal =
  PollTick env
| Heartbeat env
| QueryEndSession buffer
| WtsSessionChange env buffer
| ScreenIsLocked env
| ScreenIsUnlocked env

text \<open>The Session after a hook: as the hook left it, or as it was when the hook threw.\<close>

definition afterHook :: "Session \<Rightarrow> exn + Session \<Rightarrow> Session" where
  "afterHook s r = (case r of Inl x \<Rightarrow> s | Inr s' \<Rightarrow> s')"

text \<open>
  A timer calls its callback only while it is running; the window-message hooks exist on
  win32 only and the notification subscriptions on darwin only.
\<close>

fun step :: "host \<Rightarrow> signal \<Rightarrow> Session \<Rightarrow> Session" where
  "step p (PollTick e) s =
     (if isRunning (checkIdleStateTimer s) then checkIdleStateTimer_callback e s else s)"
| "step p (Heartbeat e) s =
     (if isRunning (idleEventTimer s) then idleEventTimer_callback e s else s)"
| "step p (QueryEndSession lParam) s =
     (if platform p = Win32 then afterHook s (on_WM_QUERYENDSESSION p lParam s) else s)"
| "step p (WtsSessionChange e wParam) s =
     (if platform p = Win32 then afterHook s (on_WM_WTSSESSION_CHANGE p e wParam s) else s)"
| "step p (ScreenIsLocked e) s =
     (if platform p = Darwin then on_screenIsLocked e s else s)"
| "step p (ScreenIsUnlocked e) s =
     (if platform p = Darwin then on_screenIsUnlocked e s else s)"

fun run :: "host \<Rightarrow> signal list \<Rightarrow> Session \<Rightarrow> Session" where
  "run p [] s = s"
| "run p (x # xs) s = run p xs (step p x s)"

subsection \<open>When a heartbeat can come\<close>

text \<open>
  Modelled from the spec: the heartbeat timer fires every fixed long interval after it was
  started, so a heartbeat of a running timer comes no sooner than one interval after the
  tick at which \<open>reset()\<close> last started it. The timer is started only by a poll tick or
  a lock, in the callback that has just read the tick count; \<open>heartbeatStart\<close> keeps
  that tick. The probe's elapsed idle time is a duration and is never negative.
\<close>

fun signalTick :: "signal \<Rightarrow> int \<Rightarrow> int" where
  "signalTick (PollTick e) r = getTickCount e"
| "signalTick (Heartbeat e) r = getTickCount e"
| "signalTick (WtsSessionChange e wParam) r = getTickCount e"
| "signalTick (ScreenIsLocked e) r = getTickCount e"
| "signalTick (ScreenIsUnlocked e) r = getTickCount e"
| "signalTick (QueryEndSession lParam) r = r"

definition heartbeatStart :: "host \<Rightarrow> signal \<Rightarrow> Session \<Rightarrow> int \<Rightarrow> int" where
  "heartbeatStart p x s r =
     (if \<not> isRunning (idleEventTimer s) \<and> isRunning (idleEventTimer (step p x s))
      then signalTick x r else r)"

fun timely :: "signal \<Rightarrow> Session \<Rightarrow> int \<Rightarrow> bool" where
  "timely (Heartbeat e) s r =
     (if isRunning (idleEventTimer s)
      then r + int (interval (idleEventTimer s)) \<le> getTickCount e else True)"
| "timely (PollTick e) s r = (0 \<le> elapsedTime e)"
| "timely x s r = True"

text \<open>
  A sequence of signals that respects the heartbeat interval, run from a Session whose
  heartbeat timer was last started at tick \<open>r\<close>.
\<close>

fun admissible :: "host \<Rightarrow> signal list \<Rightarrow> Session \<Rightarrow> int \<Rightarrow> bool" where
  "admissible p [] s r = True"
| "admissible p (x # xs) s r =
     (timely x s r \<and> admissible p xs (step p x s) (heartbeatStart p x s r))"

fun lastStart :: "host \<Rightarrow> signal list \<Rightarrow> Session \<Rightarrow> int \<Rightarrow> int" where
  "lastStart p [] s r = r"
| "lastStart p (x # xs) s r = lastStart p xs (step p x s) (heartbeatStart p x s r)"

text \<open>
  While the heartbeat timer runs, \<open>idleStartTime\<close> is a number no later than the tick
  at which the timer was started; the timer keeps its 60000 ms interval.
\<close>

definition startedBy :: "Session \<Rightarrow> int \<Rightarrow> bool" where
  "startedBy s r =
     (interval (idleEventTimer s) = 60000
      \<and> (if isRunning (idleEventTimer s)
          then (case idleStartTime s of Num a \<Rightarrow> a \<le> r | _ \<Rightarrow> False)
          else True))"

subsection \<open>Reading the event log\<close>

fun idleFlag :: "event \<Rightarrow> bool option" where
  "idleFlag (name, IdleStateChanged el idle tp ty) =
     (if name = ''idle-state-changed'' then Some idle else None)"
| "idleFlag _ = None"

text \<open>The \<open>isIdle\<close> flags of the idle-state-changed events of a log, in order.\<close>

definition idleFlags :: "event list \<Rightarrow> bool list" where
  "idleFlags evs = List.map_filter idleFlag evs"

text \<open>
  Whether the tracker is idle according to its log: the flag of the most recent
  idle-state-changed event, and not idle before any such event.
\<close>

definition lastIdle :: "event list \<Rightarrow> bool" where
  "lastIdle evs = (case rev (idleFlags evs) of [] \<Rightarrow> False | b # _ \<Rightarrow> b)"

definition sustain_iff_idle :: "Session \<Rightarrow> bool" where
  "sustain_iff_idle s = (isRunning (idleEventTimer s) = lastIdle (emitted s))"

text \<open>The events a step added to the log.\<close>

definition emittedSince :: "Session \<Rightarrow> Session \<Rightarrow> event list" where
  "emittedSince s s' = drop (length (emitted s)) (emitted s')"

definition idleEvent :: "jsnum \<Rightarrow> bool \<Rightarrow> event" where
  "idleEvent el idle =
     (''idle-state-changed'', IdleStateChanged el idle ''system'' ''idle-state-changed'')"



subsection \<open>Unfolding the model\<close>

lemmas session_defs =
  fireIdleEvent_def fireSessionEndEvent_def fireSessionEvent_def emit_def handleLock_def
  idleEventTimer_callback_def checkIdleStateTimer_callback_def
  stop_def reset_def isRunning_def js_or_def idleEvent_def emittedSince_def Session_new_def
  sessionChange_def on_screenIsLocked_def on_screenIsUnlocked_def

subsection \<open>The event log\<close>

lemma idleFlags_append: "idleFlags (xs @ ys) = idleFlags xs @ idleFlags ys"
  by (simp add: idleFlags_def List.map_filter_def)

lemma idleFlags_nil: "idleFlags [] = []"
  by (simp add: idleFlags_def List.map_filter_def)

lemma idleFlags_idle: "idleFlags [(''idle-state-changed'', IdleStateChanged x b tp ty)] = [b]"
  by (simp add: idleFlags_def List.map_filter_def)

lemma idleFlags_sessionEnd: "idleFlags [(n, SessionEnd r tp ty)] = []"
  by (simp add: idleFlags_def List.map_filter_def)

lemma idleFlags_sessionChanged: "idleFlags [(n, SessionChanged r tp ty)] = []"
  by (simp add: idleFlags_def List.map_filter_def)

lemmas idleFlags_simps =
  idleFlags_append idleFlags_nil idleFlags_idle idleFlags_sessionEnd idleFlags_sessionChanged

lemma lastIdle_nil: "lastIdle [] = False"
  by (simp add: lastIdle_def idleFlags_simps)

lemma lastIdle_snoc_idle:
  "lastIdle (evs @ [(''idle-state-changed'', IdleStateChanged x b tp ty)]) = b"
  by (simp add: lastIdle_def idleFlags_simps)

lemma lastIdle_snoc_sessionEnd: "lastIdle (evs @ [(n, SessionEnd r tp ty)]) = lastIdle evs"
  by (simp add: lastIdle_def idleFlags_simps)

lemma lastIdle_snoc_sessionChanged:
  "lastIdle (evs @ [(n, SessionChanged r tp ty)]) = lastIdle evs"
  by (simp add: lastIdle_def idleFlags_simps)

lemmas lastIdle_simps =
  lastIdle_nil lastIdle_snoc_idle lastIdle_snoc_sessionEnd lastIdle_snoc_sessionChanged

section \<open>The poll: Active to Idle\<close>

text \<open>
  C1. On a poll tick at which the probe reports idle while the heartbeat timer is stopped,
  the tracker records \<open>idleStartTime\<close> as the tick count minus the probe's elapsed idle
  time, emits exactly one idle-state-changed event with \<open>isIdle\<close> true, and starts the
  heartbeat timer. The event carries the probe's elapsed time as read at emission;
  \<open>idleEndTime\<close> and the poll timer are left alone.
\<close>

theorem poll_active_to_idle:
  assumes "isIdle e" and "\<not> isRunning (idleEventTimer s)"
  shows "idleStartTime (checkIdleStateTimer_callback e s) = Num (getTickCount e - elapsedTime e)
       \<and> emitted (checkIdleStateTimer_callback e s)
           = emitted s @ [idleEvent (Num (elapsedTime_emit e)) True]
       \<and> isRunning (idleEventTimer (checkIdleStateTimer_callback e s))
       \<and> idleEndTime (checkIdleStateTimer_callback e s) = idleEndTime s
       \<and> checkIdleStateTimer (checkIdleStateTimer_callback e s) = checkIdleStateTimer s"
  using assms by (simp add: session_defs Let_def)

theorem poll_active_to_idle_witness:
  "isIdle \<lparr>getTickCount = 61000, isIdle = True, elapsedTime = 60000, elapsedTime_emit = 60002\<rparr>
   \<and> \<not> isRunning (idleEventTimer Session_new)
   \<and> idleStartTime (checkIdleStateTimer_callback
         \<lparr>getTickCount = 61000, isIdle = True, elapsedTime = 60000, elapsedTime_emit = 60002\<rparr>
         Session_new) = Num 1000
   \<and> emitted (checkIdleStateTimer_callback
         \<lparr>getTickCount = 61000, isIdle = True, elapsedTime = 60000, elapsedTime_emit = 60002\<rparr>
         Session_new) = [idleEvent (Num 60002) True]"
proof -
  let ?e = "\<lparr>getTickCount = 61000, isIdle = True, elapsedTime = 60000, elapsedTime_emit = 60002\<rparr>"
  have h1: "isIdle ?e" by simp
  have h2: "\<not> isRunning (idleEventTimer Session_new)"
    by (simp add: Session_new_def stop_def isRunning_def)
  from poll_active_to_idle [OF h1 h2] h1 h2 show ?thesis
    by (simp add: Session_new_def)
qed

section \<open>The poll: Idle to Active\<close>

text \<open>
  C2, as the code has it. On a poll tick at which the probe reports not idle while the
  heartbeat timer runs, the tracker records \<open>idleEndTime\<close> as the tick count minus the
  probe's elapsed time, emits exactly one idle-state-changed event with \<open>isIdle\<close>
  false, and stops the heartbeat timer. The event's \<open>elapsedTime\<close> is
  \<open>idleEndTime - idleStartTime\<close> when that difference is a non-zero number; when it
  is zero or not a number the event carries the probe's elapsed time as read at emission.
\<close>

theorem poll_idle_to_active:
  assumes "\<not> isIdle e" and "isRunning (idleEventTimer s)"
  shows "idleEndTime (checkIdleStateTimer_callback e s) = Num (getTickCount e - elapsedTime e)
       \<and> emitted (checkIdleStateTimer_callback e s)
           = emitted s @
             [idleEvent
                (if truthy (js_sub (idleEndTime (checkIdleStateTimer_callback e s))
                                   (idleStartTime (checkIdleStateTimer_callback e s)))
                 then js_sub (idleEndTime (checkIdleStateTimer_callback e s))
                             (idleStartTime (checkIdleStateTimer_callback e s))
                 else Num (elapsedTime_emit e))
                False]
       \<and> \<not> isRunning (idleEventTimer (checkIdleStateTimer_callback e s))
       \<and> idleStartTime (checkIdleStateTimer_callback e s) = idleStartTime s
       \<and> checkIdleStateTimer (checkIdleStateTimer_callback e s) = checkIdleStateTimer s"
  using assms by (simp add: session_defs Let_def)

theorem poll_idle_to_active_witness:
  "\<not> isIdle \<lparr>getTickCount = 62000, isIdle = False, elapsedTime = 150, elapsedTime_emit = 152\<rparr>
   \<and> isRunning (idleEventTimer
        (checkIdleStateTimer_callback
           \<lparr>getTickCount = 61000, isIdle = True, elapsedTime = 60000, elapsedTime_emit = 60002\<rparr>
           Session_new))
   \<and> emitted
        (checkIdleStateTimer_callback
           \<lparr>getTickCount = 62000, isIdle = False, elapsedTime = 150, elapsedTime_emit = 152\<rparr>
           (checkIdleStateTimer_callback
              \<lparr>getTickCount = 61000, isIdle = True, elapsedTime = 60000, elapsedTime_emit = 60002\<rparr>
              Session_new))
       = [idleEvent (Num 60002) True, idleEvent (Num 60850) False]"
proof -
  let ?e1 = "\<lparr>getTickCount = 61000, isIdle = True, elapsedTime = 60000, elapsedTime_emit = 60002\<rparr>"
  let ?e2 = "\<lparr>getTickCount = 62000, isIdle = False, elapsedTime = 150, elapsedTime_emit = 152\<rparr>"
  let ?s = "checkIdleStateTimer_callback ?e1 Session_new"
  have h1: "\<not> isIdle ?e2" by simp
  have h2: "isRunning (idleEventTimer ?s)" by (simp add: session_defs Let_def)
  have start: "idleStartTime ?s = Num 1000" by (simp add: session_defs Let_def)
  have log: "emitted ?s = [idleEvent (Num 60002) True]" by (simp add: session_defs Let_def)
  from poll_idle_to_active [OF h1 h2] h1 h2 start log show ?thesis by simp
qed

text \<open>
  C2 as stated fails when the span is zero. The probe reports idle at tick 61000 with
  60000 ms elapsed, so \<open>idleStartTime\<close> is 1000; at tick 62000 it reports not idle with
  61000 ms elapsed (no input in between), so \<open>idleEndTime\<close> is 1000 too. The difference
  is 0, which is falsy, and the event carries the probe's 61000 instead.
\<close>

theorem poll_idle_to_active_zero_span:
  "\<not> isIdle \<lparr>getTickCount = 62000, isIdle = False, elapsedTime = 61000, elapsedTime_emit = 61000\<rparr>
   \<and> isRunning (idleEventTimer
        (checkIdleStateTimer_callback
           \<lparr>getTickCount = 61000, isIdle = True, elapsedTime = 60000, elapsedTime_emit = 60000\<rparr>
           Session_new))
   \<and> js_sub
        (idleEndTime
          (checkIdleStateTimer_callback
             \<lparr>getTickCount = 62000, isIdle = False, elapsedTime = 61000, elapsedTime_emit = 61000\<rparr>
             (checkIdleStateTimer_callback
                \<lparr>getTickCount = 61000, isIdle = True, elapsedTime = 60000, elapsedTime_emit = 60000\<rparr>
                Session_new)))
        (idleStartTime
          (checkIdleStateTimer_callback
             \<lparr>getTickCount = 62000, isIdle = False, elapsedTime = 61000, elapsedTime_emit = 61000\<rparr>
             (checkIdleStateTimer_callback
                \<lparr>getTickCount = 61000, isIdle = True, elapsedTime = 60000, elapsedTime_emit = 60000\<rparr>
                Session_new)))
       = Num 0
   \<and> emittedSince
        (checkIdleStateTimer_callback
           \<lparr>getTickCount = 61000, isIdle = True, elapsedTime = 60000, elapsedTime_emit = 60000\<rparr>
           Session_new)
        (checkIdleStateTimer_callback
           \<lparr>getTickCount = 62000, isIdle = False, elapsedTime = 61000, elapsedTime_emit = 61000\<rparr>
           (checkIdleStateTimer_callback
              \<lparr>getTickCount = 61000, isIdle = True, elapsedTime = 60000, elapsedTime_emit = 60000\<rparr>
              Session_new))
       = [idleEvent (Num 61000) False]
   \<and> emittedSince
        (checkIdleStateTimer_callback
           \<lparr>getTickCount = 61000, isIdle = True, elapsedTime = 60000, elapsedTime_emit = 60000\<rparr>
           Session_new)
        (checkIdleStateTimer_callback
           \<lparr>getTickCount = 62000, isIdle = False, elapsedTime = 61000, elapsedTime_emit = 61000\<rparr>
           (checkIdleStateTimer_callback
              \<lparr>getTickCount = 61000, isIdle = True, elapsedTime = 60000, elapsedTime_emit = 60000\<rparr>
              Session_new))
       \<noteq> [idleEvent (Num 0) False]"
  by (simp add: session_defs Let_def)

section \<open>One poll tick, at most one event\<close>

text \<open>
  C6. A poll tick only appends to the log, and appends at most one event. It never emits
  both an idle start and an idle end: either the tick changes nothing, or the probe is
  idle with the heartbeat timer stopped and the one event has \<open>isIdle\<close> true, or the
  probe is not idle with the heartbeat timer running and the one event has
  \<open>isIdle\<close> false.
\<close>

theorem poll_tick_at_most_one_event:
  "emitted (checkIdleStateTimer_callback e s)
     = emitted s @ emittedSince s (checkIdleStateTimer_callback e s)
   \<and> length (emittedSince s (checkIdleStateTimer_callback e s)) \<le> 1
   \<and> count_list (idleFlags (emittedSince s (checkIdleStateTimer_callback e s))) True
       + count_list (idleFlags (emittedSince s (checkIdleStateTimer_callback e s))) False \<le> 1
   \<and> (checkIdleStateTimer_callback e s = s
       \<or> (isIdle e \<and> \<not> isRunning (idleEventTimer s)
           \<and> idleFlags (emittedSince s (checkIdleStateTimer_callback e s)) = [True])
       \<or> (\<not> isIdle e \<and> isRunning (idleEventTimer s)
           \<and> idleFlags (emittedSince s (checkIdleStateTimer_callback e s)) = [False]))"
proof -
  consider (start) "isIdle e" "\<not> isRunning (idleEventTimer s)"
    | (finish) "\<not> isIdle e" "isRunning (idleEventTimer s)"
    | (neither) "isIdle e = isRunning (idleEventTimer s)"
    by blast
  then show ?thesis
  proof cases
    case start
    then show ?thesis by (simp add: session_defs Let_def idleFlags_simps)
  next
    case finish
    then show ?thesis by (simp add: session_defs Let_def idleFlags_simps)
  next
    case neither
    then have "checkIdleStateTimer_callback e s = s"
      by (simp add: checkIdleStateTimer_callback_def Let_def)
    then show ?thesis by (simp add: emittedSince_def idleFlags_nil)
  qed
qed

section \<open>The heartbeat\<close>

lemma startedBy_new: "startedBy Session_new r"
  by (simp add: startedBy_def session_defs)

lemma startedBy_poll:
  assumes "startedBy s r" and "0 \<le> elapsedTime e"
  shows "startedBy (step p (PollTick e) s) (heartbeatStart p (PollTick e) s r)"
  using assms by (simp add: startedBy_def heartbeatStart_def session_defs Let_def)

lemma startedBy_heartbeat:
  assumes "startedBy s r"
  shows "startedBy (step p (Heartbeat e) s) (heartbeatStart p (Heartbeat e) s r)"
  using assms by (simp add: startedBy_def heartbeatStart_def session_defs)

lemma startedBy_handleLock:
  assumes "startedBy s r"
  shows "startedBy (handleLock e b s)
           (if \<not> isRunning (idleEventTimer s) \<and> isRunning (idleEventTimer (handleLock e b s))
            then getTickCount e else r)"
  using assms by (cases b) (simp_all add: startedBy_def session_defs Let_def)

lemma startedBy_emit: "startedBy (emit name pl s) r = startedBy s r"
  by (simp add: startedBy_def emit_def)

lemma idleEventTimer_emit: "idleEventTimer (emit name pl s) = idleEventTimer s"
  by (simp add: emit_def)

lemma startedBy_step:
  assumes "startedBy s r" and "timely x s r"
  shows "startedBy (step p x s) (heartbeatStart p x s r)"
proof (cases x)
  case (PollTick e)
  with assms show ?thesis by (simp add: startedBy_poll del: step.simps)
next
  case (Heartbeat e)
  with assms show ?thesis by (simp add: startedBy_heartbeat del: step.simps)
next
  case (QueryEndSession lParam)
  with assms show ?thesis
    by (simp add: heartbeatStart_def afterHook_def on_WM_QUERYENDSESSION_def
        fireSessionEndEvent_def startedBy_emit idleEventTimer_emit split: sum.splits)
next
  case (WtsSessionChange e wParam)
  have lock: "startedBy (handleLock e b s)
           (if \<not> isRunning (idleEventTimer s) \<and> isRunning (idleEventTimer (handleLock e b s))
            then getTickCount e else r)" for b
    using assms(1) by (rule startedBy_handleLock)
  from assms(1) lock [of True] lock [of False] WtsSessionChange show ?thesis
    by (auto simp add: heartbeatStart_def afterHook_def on_WM_WTSSESSION_CHANGE_def
        sessionChange_def Let_def fireSessionEvent_def startedBy_emit idleEventTimer_emit
        split: sum.splits if_splits)
next
  case (ScreenIsLocked e)
  from startedBy_handleLock [OF assms(1), of e True] ScreenIsLocked show ?thesis
    by (auto simp add: heartbeatStart_def on_screenIsLocked_def fireSessionEvent_def
        startedBy_emit idleEventTimer_emit assms(1) split: if_splits)
next
  case (ScreenIsUnlocked e)
  from startedBy_handleLock [OF assms(1), of e False] ScreenIsUnlocked show ?thesis
    by (auto simp add: heartbeatStart_def on_screenIsUnlocked_def fireSessionEvent_def
        startedBy_emit idleEventTimer_emit assms(1) split: if_splits)
qed

lemma admissible_last:
  assumes "startedBy s r" and "admissible p (sigs @ [x]) s r"
  shows "startedBy (run p sigs s) (lastStart p sigs s r)
       \<and> timely x (run p sigs s) (lastStart p sigs s r)"
  using assms
proof (induction sigs arbitrary: s r)
  case Nil
  then show ?case by simp
next
  case (Cons y ys)
  from Cons.prems have "timely y s r"
    and rest: "admissible p (ys @ [x]) (step p y s) (heartbeatStart p y s r)"
    by simp_all
  with Cons.prems(1) have "startedBy (step p y s) (heartbeatStart p y s r)"
    by (simp add: startedBy_step)
  from Cons.IH [OF this rest] show ?case by simp
qed

lemma heartbeat_fires:
  "isRunning (idleEventTimer s) \<Longrightarrow>
     step p (Heartbeat e) s
       = s\<lparr>emitted := emitted s @
             [idleEvent (js_or (js_sub (Num (getTickCount e)) (idleStartTime s))
                               (Num (elapsedTime_emit e))) True]\<rparr>"
  by (simp add: idleEventTimer_callback_def fireIdleEvent_def emit_def idleEvent_def)

text \<open>
  C7. Take any sequence of signals from construction on that respects the heartbeat
  interval, and a heartbeat after it. If the heartbeat timer is stopped the heartbeat does
  not fire: nothing changes. If it runs, \<open>idleStartTime\<close> is a number at least 60000 ms
  before the tick count the heartbeat reads, and the heartbeat appends exactly one
  idle-state-changed event with \<open>isIdle\<close> true and \<open>elapsedTime\<close> equal to that tick
  count minus \<open>idleStartTime\<close>; \<open>idleStartTime\<close>, \<open>idleEndTime\<close> and both timers
  are left as they were.
\<close>

theorem heartbeat:
  assumes "admissible p (sigs @ [Heartbeat e]) Session_new r"
    and "s = run p sigs Session_new"
  shows "(\<not> isRunning (idleEventTimer s) \<longrightarrow> step p (Heartbeat e) s = s)
       \<and> (isRunning (idleEventTimer s) \<longrightarrow>
            step p (Heartbeat e) s
              = s\<lparr>emitted := emitted s @
                    [idleEvent (js_sub (Num (getTickCount e)) (idleStartTime s)) True]\<rparr>)
       \<and> (isRunning (idleEventTimer s) \<longrightarrow>
            (\<exists>a. idleStartTime s = Num a \<and> a + 60000 \<le> getTickCount e
                 \<and> js_sub (Num (getTickCount e)) (idleStartTime s) = Num (getTickCount e - a)))
       \<and> idleStartTime (step p (Heartbeat e) s) = idleStartTime s
       \<and> idleEndTime (step p (Heartbeat e) s) = idleEndTime s
       \<and> idleEventTimer (step p (Heartbeat e) s) = idleEventTimer s
       \<and> checkIdleStateTimer (step p (Heartbeat e) s) = checkIdleStateTimer s"
proof -
  let ?r = "lastStart p sigs Session_new r"
  from admissible_last [OF startedBy_new assms(1)] assms(2)
  have inv: "startedBy s ?r" and due: "timely (Heartbeat e) s ?r"
    by simp_all
  have stopped: "\<not> isRunning (idleEventTimer s) \<longrightarrow> step p (Heartbeat e) s = s"
    by simp
  have number: "\<exists>a. idleStartTime s = Num a \<and> a + 60000 \<le> getTickCount e
                 \<and> js_sub (Num (getTickCount e)) (idleStartTime s) = Num (getTickCount e - a)"
    if running: "isRunning (idleEventTimer s)"
  proof (cases "idleStartTime s")
    case (Num a)
    from inv running Num have "a \<le> ?r" and "interval (idleEventTimer s) = 60000"
      by (simp_all add: startedBy_def)
    moreover from due running have "?r + int (interval (idleEventTimer s)) \<le> getTickCount e"
      by simp
    ultimately have "a + 60000 \<le> getTickCount e" by simp
    with Num show ?thesis by simp
  next
    case Undefined
    with inv running show ?thesis by (simp add: startedBy_def)
  next
    case NaN
    with inv running show ?thesis by (simp add: startedBy_def)
  qed
  have fires: "step p (Heartbeat e) s
              = s\<lparr>emitted := emitted s @
                    [idleEvent (js_sub (Num (getTickCount e)) (idleStartTime s)) True]\<rparr>"
    if running: "isRunning (idleEventTimer s)"
  proof -
    from number [OF running] obtain a where a: "idleStartTime s = Num a"
      and late: "a + 60000 \<le> getTickCount e" by blast
    then have "truthy (js_sub (Num (getTickCount e)) (idleStartTime s))" by simp
    then show ?thesis by (simp add: heartbeat_fires [OF running] js_or_def del: step.simps)
  qed
  have frame: "idleStartTime (step p (Heartbeat e) s) = idleStartTime s
       \<and> idleEndTime (step p (Heartbeat e) s) = idleEndTime s
       \<and> idleEventTimer (step p (Heartbeat e) s) = idleEventTimer s
       \<and> checkIdleStateTimer (step p (Heartbeat e) s) = checkIdleStateTimer s"
    by (simp add: idleEventTimer_callback_def fireIdleEvent_def emit_def)
  from stopped fires number frame show ?thesis by blast
qed

theorem heartbeat_witness:
  "admissible (firstByteHost Darwin)
     ([ScreenIsLocked
         \<lparr>getTickCount = 5000, isIdle = False, elapsedTime = 70, elapsedTime_emit = 70\<rparr>]
      @ [Heartbeat
           \<lparr>getTickCount = 65000, isIdle = False, elapsedTime = 10, elapsedTime_emit = 10\<rparr>])
     Session_new 0
   \<and> isRunning (idleEventTimer
        (run (firstByteHost Darwin)
           [ScreenIsLocked
              \<lparr>getTickCount = 5000, isIdle = False, elapsedTime = 70, elapsedTime_emit = 70\<rparr>]
           Session_new))
   \<and> emitted
        (step (firstByteHost Darwin)
           (Heartbeat
              \<lparr>getTickCount = 65000, isIdle = False, elapsedTime = 10, elapsedTime_emit = 10\<rparr>)
           (run (firstByteHost Darwin)
              [ScreenIsLocked
                 \<lparr>getTickCount = 5000, isIdle = False, elapsedTime = 70, elapsedTime_emit = 70\<rparr>]
              Session_new))
       = [idleEvent (Num 70) True,
          (''session-changed'', SessionChanged ''lock'' ''system'' ''session-changed''),
          idleEvent (Num 60000) True]"
proof -
  let ?h = "firstByteHost Darwin"
  let ?lock = "\<lparr>getTickCount = 5000, isIdle = False, elapsedTime = 70, elapsedTime_emit = 70\<rparr>"
  let ?beat = "\<lparr>getTickCount = 65000, isIdle = False, elapsedTime = 10, elapsedTime_emit = 10\<rparr>"
  let ?s = "run ?h [ScreenIsLocked ?lock] Session_new"
  have state: "?s = \<lparr>idleEventTimer = \<lparr>running = True, interval = 60000\<rparr>,
      checkIdleStateTimer = \<lparr>running = False, interval = 1000\<rparr>,
      idleStartTime = Num 5000, idleEndTime = Undefined,
      emitted = [idleEvent (Num 70) True,
                 (''session-changed'', SessionChanged ''lock'' ''system'' ''session-changed'')]\<rparr>"
    by (simp add: firstByteHost_def session_defs Let_def)
  have adm: "admissible ?h ([ScreenIsLocked ?lock] @ [Heartbeat ?beat]) Session_new 0"
    by (simp add: heartbeatStart_def firstByteHost_def session_defs Let_def)
  have running: "isRunning (idleEventTimer ?s)"
    unfolding state by (simp add: isRunning_def)
  have "step ?h (Heartbeat ?beat) ?s
          = ?s\<lparr>emitted := emitted ?s @
               [idleEvent (js_sub (Num (getTickCount ?beat)) (idleStartTime ?s)) True]\<rparr>"
    using heartbeat [OF adm refl] running by blast
  then have "emitted (step ?h (Heartbeat ?beat) ?s)
          = emitted ?s @ [idleEvent (js_sub (Num (getTickCount ?beat)) (idleStartTime ?s)) True]"
    by simp
  then have log: "emitted (step ?h (Heartbeat ?beat) ?s)
          = [idleEvent (Num 70) True,
             (''session-changed'', SessionChanged ''lock'' ''system'' ''session-changed''),
             idleEvent (Num 60000) True]"
    unfolding state by simp
  from adm running log show ?thesis by (intro conjI)
qed

section \<open>Lock and unlock\<close>

lemma handleLock_true_stopped:
  "\<not> isRunning (idleEventTimer s) \<Longrightarrow>
     handleLock e True s
       = s\<lparr>checkIdleStateTimer := stop (checkIdleStateTimer s),
            idleStartTime := Num (getTickCount e),
            emitted := emitted s @ [idleEvent (Num (elapsedTime_emit e)) True],
            idleEventTimer := reset (idleEventTimer s)\<rparr>"
  by (simp add: session_defs Let_def)

lemma handleLock_true_running:
  "isRunning (idleEventTimer s) \<Longrightarrow>
     handleLock e True s = s\<lparr>checkIdleStateTimer := stop (checkIdleStateTimer s)\<rparr>"
  by (simp add: session_defs Let_def)

lemma handleLock_true_leaves_running: "isRunning (idleEventTimer (handleLock e True s))"
  by (cases "isRunning (idleEventTimer s)")
     (simp_all add: handleLock_true_stopped handleLock_true_running isRunning_def reset_def)

text \<open>
  C3. \<open>handleLock(true)\<close> always stops the poll timer. If the heartbeat timer is
  stopped it then sets \<open>idleStartTime\<close> to the raw tick count, emits one
  idle-state-changed event with \<open>isIdle\<close> true and starts the heartbeat timer; if the
  heartbeat timer already runs it does nothing more. So the second of two calls in a row
  emits nothing, and the two together emit at most one event with \<open>isIdle\<close> true.
\<close>

theorem handleLock_true:
  "\<not> isRunning (checkIdleStateTimer (handleLock e True s))
   \<and> (\<not> isRunning (idleEventTimer s) \<longrightarrow>
        idleStartTime (handleLock e True s) = Num (getTickCount e)
        \<and> emitted (handleLock e True s) = emitted s @ [idleEvent (Num (elapsedTime_emit e)) True]
        \<and> isRunning (idleEventTimer (handleLock e True s))
        \<and> idleEndTime (handleLock e True s) = idleEndTime s)
   \<and> (isRunning (idleEventTimer s) \<longrightarrow>
        handleLock e True s = s\<lparr>checkIdleStateTimer := stop (checkIdleStateTimer s)\<rparr>)
   \<and> emitted (handleLock e' True (handleLock e True s)) = emitted (handleLock e True s)
   \<and> count_list (idleFlags (emittedSince s (handleLock e' True (handleLock e True s)))) True \<le> 1"
proof -
  let ?s1 = "handleLock e True s"
  have poll: "\<not> isRunning (checkIdleStateTimer ?s1)"
    by (cases "isRunning (idleEventTimer s)")
       (simp_all add: handleLock_true_stopped handleLock_true_running isRunning_def stop_def)
  have start: "\<not> isRunning (idleEventTimer s) \<longrightarrow>
        idleStartTime ?s1 = Num (getTickCount e)
        \<and> emitted ?s1 = emitted s @ [idleEvent (Num (elapsedTime_emit e)) True]
        \<and> isRunning (idleEventTimer ?s1)
        \<and> idleEndTime ?s1 = idleEndTime s"
    by (simp add: handleLock_true_stopped isRunning_def reset_def)
  have noop: "isRunning (idleEventTimer s) \<longrightarrow>
        ?s1 = s\<lparr>checkIdleStateTimer := stop (checkIdleStateTimer s)\<rparr>"
    by (simp add: handleLock_true_running)
  have second: "emitted (handleLock e' True ?s1) = emitted ?s1"
    by (simp add: handleLock_true_running [OF handleLock_true_leaves_running])
  have once: "count_list (idleFlags (emittedSince s (handleLock e' True ?s1))) True \<le> 1"
  proof (cases "isRunning (idleEventTimer s)")
    case True
    then have "emittedSince s (handleLock e' True ?s1) = []"
      unfolding emittedSince_def second by (simp add: handleLock_true_running)
    then show ?thesis by (simp add: idleFlags_nil)
  next
    case False
    then have "emittedSince s (handleLock e' True ?s1) = [idleEvent (Num (elapsedTime_emit e)) True]"
      unfolding emittedSince_def second by (simp add: handleLock_true_stopped)
    then show ?thesis by (simp add: idleEvent_def idleFlags_idle)
  qed
  from poll start noop second once show ?thesis by (intro conjI)
qed

theorem handleLock_true_witness:
  "\<not> isRunning (idleEventTimer Session_new)
   \<and> idleStartTime
        (handleLock \<lparr>getTickCount = 5000, isIdle = False, elapsedTime = 70, elapsedTime_emit = 70\<rparr>
           True Session_new) = Num 5000
   \<and> emitted
        (handleLock \<lparr>getTickCount = 5000, isIdle = False, elapsedTime = 70, elapsedTime_emit = 70\<rparr>
           True Session_new) = [idleEvent (Num 70) True]
   \<and> isRunning (idleEventTimer
        (handleLock \<lparr>getTickCount = 5000, isIdle = False, elapsedTime = 70, elapsedTime_emit = 70\<rparr>
           True Session_new))
   \<and> emitted
        (handleLock \<lparr>getTickCount = 5200, isIdle = False, elapsedTime = 270, elapsedTime_emit = 270\<rparr>
           True
           (handleLock \<lparr>getTickCount = 5000, isIdle = False, elapsedTime = 70, elapsedTime_emit = 70\<rparr>
              True Session_new)) = [idleEvent (Num 70) True]
   \<and> idleStartTime
        (handleLock \<lparr>getTickCount = 5200, isIdle = False, elapsedTime = 270, elapsedTime_emit = 270\<rparr>
           True
           (handleLock \<lparr>getTickCount = 5000, isIdle = False, elapsedTime = 70, elapsedTime_emit = 70\<rparr>
              True Session_new)) = Num 5000"
proof -
  let ?e = "\<lparr>getTickCount = 5000, isIdle = False, elapsedTime = 70, elapsedTime_emit = 70\<rparr>"
  let ?e' = "\<lparr>getTickCount = 5200, isIdle = False, elapsedTime = 270, elapsedTime_emit = 270\<rparr>"
  let ?s = "handleLock ?e True Session_new"
  have stopped: "\<not> isRunning (idleEventTimer Session_new)"
    by (simp add: Session_new_def stop_def isRunning_def)
  have new: "emitted Session_new = []"
    by (simp add: Session_new_def)
  have first: "idleStartTime ?s = Num (getTickCount ?e)
      \<and> emitted ?s = emitted Session_new @ [idleEvent (Num (elapsedTime_emit ?e)) True]
      \<and> isRunning (idleEventTimer ?s)"
    using handleLock_true [where s = Session_new and e = ?e] stopped by blast
  then have running: "isRunning (idleEventTimer ?s)" by blast
  have second: "handleLock ?e' True ?s = ?s\<lparr>checkIdleStateTimer := stop (checkIdleStateTimer ?s)\<rparr>"
    using handleLock_true [where s = ?s and e = ?e'] running by blast
  have second_start: "idleStartTime (handleLock ?e' True ?s) = idleStartTime ?s"
    by (subst second) simp
  have second_log: "emitted (handleLock ?e' True ?s) = emitted ?s"
    by (subst second) simp
  from stopped new first second_start second_log show ?thesis by simp
qed

text \<open>
  C4, as the code has it. \<open>handleLock(false)\<close> stops the heartbeat timer, sets
  \<open>idleEndTime\<close> to the tick count, emits exactly one idle-state-changed event with
  \<open>isIdle\<close> false and restarts the poll timer, in every state. The event's
  \<open>elapsedTime\<close> is \<open>idleEndTime - idleStartTime\<close> when that difference is a
  non-zero number; when \<open>idleStartTime\<close> was never assigned, or the difference is zero,
  the event carries the probe's elapsed time.
\<close>

theorem handleLock_false:
  "\<not> isRunning (idleEventTimer (handleLock e False s))
   \<and> idleEndTime (handleLock e False s) = Num (getTickCount e)
   \<and> emitted (handleLock e False s)
       = emitted s @
         [idleEvent
            (if truthy (js_sub (idleEndTime (handleLock e False s))
                               (idleStartTime (handleLock e False s)))
             then js_sub (idleEndTime (handleLock e False s))
                         (idleStartTime (handleLock e False s))
             else Num (elapsedTime_emit e))
            False]
   \<and> isRunning (checkIdleStateTimer (handleLock e False s))
   \<and> idleStartTime (handleLock e False s) = idleStartTime s"
  by (simp add: session_defs Let_def)

text \<open>
  C4 as stated fails on a freshly constructed Session: an unlock at tick 5000 computes
  \<open>5000 - undefined\<close>, which is \<open>NaN\<close>, and the event carries the probe's 70.
\<close>

theorem unlock_before_any_idle_start:
  "js_sub
     (idleEndTime
        (handleLock \<lparr>getTickCount = 5000, isIdle = False, elapsedTime = 70, elapsedTime_emit = 70\<rparr>
           False Session_new))
     (idleStartTime
        (handleLock \<lparr>getTickCount = 5000, isIdle = False, elapsedTime = 70, elapsedTime_emit = 70\<rparr>
           False Session_new))
     = NaN
   \<and> emitted
        (handleLock \<lparr>getTickCount = 5000, isIdle = False, elapsedTime = 70, elapsedTime_emit = 70\<rparr>
           False Session_new)
       = [idleEvent (Num 70) False]
   \<and> emitted
        (handleLock \<lparr>getTickCount = 5000, isIdle = False, elapsedTime = 70, elapsedTime_emit = 70\<rparr>
           False Session_new)
       \<noteq> [idleEvent NaN False]"
  by (simp add: session_defs Let_def)

text \<open>
  C9, as the code has it. When \<open>idleStartTime\<close> was never assigned,
  \<open>handleLock(false)\<close> still returns and emits exactly one idle-state-changed event with
  \<open>isIdle\<close> false: the subtraction gives \<open>NaN\<close>, nothing on the path throws, and
  the unlock hook, once it has read its code, returns normally. \<open>NaN\<close> being falsy, the
  event's \<open>elapsedTime\<close> is the probe's elapsed time; it is the same whatever the tick
  count is. Only when \<open>idleStartTime\<close> holds a number other than the tick count does
  the event carry the difference.
\<close>

theorem unlock_with_idleStartTime_unset:
  "(idleStartTime s = Undefined \<longrightarrow>
      emitted (handleLock e False s) = emitted s @ [idleEvent (Num (elapsedTime_emit e)) False]
      \<and> js_sub (Num (getTickCount e)) (idleStartTime s) = NaN
      \<and> idleEndTime (handleLock e False s) = Num (getTickCount e)
      \<and> idleStartTime (handleLock e False s) = Undefined)
   \<and> (idleStartTime s = Undefined \<longrightarrow> elapsedTime_emit e' = elapsedTime_emit e \<longrightarrow>
      emittedSince s (handleLock e' False s) = emittedSince s (handleLock e False s))
   \<and> (idleStartTime s = Undefined \<longrightarrow> readIntLE p wParam = Inr 8 \<longrightarrow>
      on_WM_WTSSESSION_CHANGE p e wParam s
        = Inr (fireSessionEvent ''unlock'' (handleLock e False s)))
   \<and> (idleStartTime s = Num a \<longrightarrow> getTickCount e \<noteq> a \<longrightarrow>
      emitted (handleLock e False s)
        = emitted s @ [idleEvent (Num (getTickCount e - a)) False])"
proof -
  have unset: "emitted (handleLock e False s)
                 = emitted s @ [idleEvent (Num (elapsedTime_emit e)) False]
      \<and> js_sub (Num (getTickCount e)) (idleStartTime s) = NaN
      \<and> idleEndTime (handleLock e False s) = Num (getTickCount e)
      \<and> idleStartTime (handleLock e False s) = Undefined"
    if "idleStartTime s = Undefined" for e
    using that by (simp add: session_defs Let_def)
  have same: "emittedSince s (handleLock e' False s) = emittedSince s (handleLock e False s)"
    if "idleStartTime s = Undefined" and "elapsedTime_emit e' = elapsedTime_emit e"
    using that by (simp add: session_defs Let_def)
  have hook: "on_WM_WTSSESSION_CHANGE p e wParam s
        = Inr (fireSessionEvent ''unlock'' (handleLock e False s))"
    if "readIntLE p wParam = Inr 8"
    using that by (simp add: on_WM_WTSSESSION_CHANGE_def sessionChange_def
        sessionChangeReason_def Let_def)
  have set: "emitted (handleLock e False s)
        = emitted s @ [idleEvent (Num (getTickCount e - a)) False]"
    if "idleStartTime s = Num a" and "getTickCount e \<noteq> a"
    using that by (simp add: session_defs Let_def)
  from unset same hook set show ?thesis by blast
qed

theorem unlock_with_idleStartTime_unset_witness:
  "idleStartTime Session_new = Undefined
   \<and> emitted (handleLock \<lparr>getTickCount = 7000, isIdle = False, elapsedTime = 70, elapsedTime_emit = 70\<rparr> False Session_new) = [idleEvent (Num 70) False]
   \<and> readIntLE (firstByteHost Win32) [8, 0, 0, 0] = Inr 8
   \<and> on_WM_WTSSESSION_CHANGE (firstByteHost Win32) \<lparr>getTickCount = 7000, isIdle = False, elapsedTime = 70, elapsedTime_emit = 70\<rparr> [8, 0, 0, 0] Session_new
       = Inr (fireSessionEvent ''unlock'' (handleLock \<lparr>getTickCount = 7000, isIdle = False, elapsedTime = 70, elapsedTime_emit = 70\<rparr> False Session_new))
   \<and> idleStartTime (handleLock \<lparr>getTickCount = 5000, isIdle = False, elapsedTime = 70, elapsedTime_emit = 70\<rparr> True Session_new) = Num 5000
   \<and> getTickCount \<lparr>getTickCount = 9000, isIdle = False, elapsedTime = 70, elapsedTime_emit = 70\<rparr> \<noteq> 5000
   \<and> emitted (handleLock \<lparr>getTickCount = 9000, isIdle = False, elapsedTime = 70, elapsedTime_emit = 70\<rparr> False (handleLock \<lparr>getTickCount = 5000, isIdle = False, elapsedTime = 70, elapsedTime_emit = 70\<rparr> True Session_new))
       = [idleEvent (Num 70) True, idleEvent (Num 4000) False]"
proof -
  let ?e = "\<lparr>getTickCount = 7000, isIdle = False, elapsedTime = 70, elapsedTime_emit = 70\<rparr>"
  let ?e' = "\<lparr>getTickCount = 9000, isIdle = False, elapsedTime = 70, elapsedTime_emit = 70\<rparr>"
  let ?s = "handleLock \<lparr>getTickCount = 5000, isIdle = False, elapsedTime = 70, elapsedTime_emit = 70\<rparr> True Session_new"
  have h: "idleStartTime Session_new = Undefined" by (simp add: Session_new_def)
  have new: "emitted Session_new = []" by (simp add: Session_new_def)
  have code: "readIntLE (firstByteHost Win32) [8, 0, 0, 0] = Inr 8"
    by (simp add: firstByteHost_def firstByte_def)
  have start: "idleStartTime ?s = Num 5000" by (simp add: session_defs Let_def)
  have log: "emitted ?s = [idleEvent (Num 70) True]" by (simp add: session_defs Let_def)
  have tick: "getTickCount ?e' \<noteq> 5000" by simp
  have a: "emitted (handleLock ?e False Session_new)
             = emitted Session_new @ [idleEvent (Num (elapsedTime_emit ?e)) False]"
    using unlock_with_idleStartTime_unset [where s = Session_new and e = ?e] h by blast
  have b: "on_WM_WTSSESSION_CHANGE (firstByteHost Win32) ?e [8, 0, 0, 0] Session_new
             = Inr (fireSessionEvent ''unlock'' (handleLock ?e False Session_new))"
    using unlock_with_idleStartTime_unset
      [where s = Session_new and e = ?e and p = "firstByteHost Win32" and wParam = "[8, 0, 0, 0]"]
      h code by blast
  have c: "emitted (handleLock ?e' False ?s)
             = emitted ?s @ [idleEvent (Num (getTickCount ?e' - 5000)) False]"
    using unlock_with_idleStartTime_unset [where s = ?s and e = ?e' and a = 5000] start tick
    by blast
  from a new have a': "emitted (handleLock ?e False Session_new) = [idleEvent (Num 70) False]"
    by simp
  from c log have c': "emitted (handleLock ?e' False ?s)
             = [idleEvent (Num 70) True, idleEvent (Num 4000) False]"
    by simp
  from h a' code b start tick c' show ?thesis by (intro conjI)
qed

text \<open>
  C9 as stated has the event's \<open>elapsedTime\<close> computed from \<open>now - idleStartTime\<close>.
  On a freshly constructed Session an unlock at tick 7000 and an unlock at tick 9000, the
  probe reading 70 ms both times, emit the same \<open>elapsedTime\<close> 70: the difference is
  \<open>NaN\<close> and the value carried does not depend on the tick count.
\<close>

theorem unlock_elapsed_ignores_now:
  "js_sub
     (idleEndTime (handleLock \<lparr>getTickCount = 7000, isIdle = False, elapsedTime = 70, elapsedTime_emit = 70\<rparr> False Session_new))
     (idleStartTime (handleLock \<lparr>getTickCount = 7000, isIdle = False, elapsedTime = 70, elapsedTime_emit = 70\<rparr> False Session_new)) = NaN
   \<and> js_sub
     (idleEndTime (handleLock \<lparr>getTickCount = 9000, isIdle = False, elapsedTime = 70, elapsedTime_emit = 70\<rparr> False Session_new))
     (idleStartTime (handleLock \<lparr>getTickCount = 9000, isIdle = False, elapsedTime = 70, elapsedTime_emit = 70\<rparr> False Session_new)) = NaN
   \<and> emitted (handleLock \<lparr>getTickCount = 7000, isIdle = False, elapsedTime = 70, elapsedTime_emit = 70\<rparr> False Session_new) = [idleEvent (Num 70) False]
   \<and> emitted (handleLock \<lparr>getTickCount = 9000, isIdle = False, elapsedTime = 70, elapsedTime_emit = 70\<rparr> False Session_new) = [idleEvent (Num 70) False]
   \<and> idleEvent (Num 70) False \<noteq> idleEvent NaN False"
  by (simp add: session_defs Let_def)

section \<open>The elapsed time an idle event carries\<close>

text \<open>
  C10, as the code has it. Every idle-state-changed event is emitted by
  \<open>fireIdleEvent\<close>, and its \<open>elapsedTime\<close> is the supplied value when that value
  is truthy and the probe's current elapsed time otherwise. The falsy values are exactly:
  absent (\<open>undefined\<close>), \<open>NaN\<close> and 0. So an unlock whose span is exactly 0, or
  whose \<open>idleStartTime\<close> was never assigned, reports the probe's elapsed time in place
  of the span; the reported value differs from 0 whenever the probe's reading does.
\<close>

theorem idle_event_elapsedTime:
  "emitted (fireIdleEvent e idle x s)
     = emitted s @ [idleEvent (if truthy x then x else Num (elapsedTime_emit e)) idle]
   \<and> truthy x = (x \<noteq> Undefined \<and> x \<noteq> NaN \<and> x \<noteq> Num 0)
   \<and> emitted (fireIdleEvent e idle Undefined s)
       = emitted s @ [idleEvent (Num (elapsedTime_emit e)) idle]
   \<and> emitted (fireIdleEvent e idle NaN s)
       = emitted s @ [idleEvent (Num (elapsedTime_emit e)) idle]
   \<and> emitted (fireIdleEvent e idle (Num 0) s)
       = emitted s @ [idleEvent (Num (elapsedTime_emit e)) idle]
   \<and> (idleStartTime s = Num (getTickCount e) \<longrightarrow>
        emitted (handleLock e False s) = emitted s @ [idleEvent (Num (elapsedTime_emit e)) False])
   \<and> (idleStartTime s = Undefined \<longrightarrow>
        emitted (handleLock e False s) = emitted s @ [idleEvent (Num (elapsedTime_emit e)) False])
   \<and> (elapsedTime_emit e \<noteq> 0 \<longrightarrow>
        emitted (fireIdleEvent e idle (Num 0) s) \<noteq> emitted s @ [idleEvent (Num 0) idle])"
  by (cases x) (simp_all add: session_defs Let_def)

theorem idle_event_elapsedTime_witness:
  "idleStartTime
     (handleLock \<lparr>getTickCount = 5000, isIdle = False, elapsedTime = 70, elapsedTime_emit = 70\<rparr>
        True Session_new)
     = Num (getTickCount
         \<lparr>getTickCount = 5000, isIdle = False, elapsedTime = 3, elapsedTime_emit = 3\<rparr>)
   \<and> emitted
        (handleLock \<lparr>getTickCount = 5000, isIdle = False, elapsedTime = 3, elapsedTime_emit = 3\<rparr>
           False
           (handleLock \<lparr>getTickCount = 5000, isIdle = False, elapsedTime = 70, elapsedTime_emit = 70\<rparr>
              True Session_new))
       = [idleEvent (Num 70) True, idleEvent (Num 3) False]
   \<and> idleStartTime Session_new = Undefined
   \<and> emitted
        (handleLock \<lparr>getTickCount = 5000, isIdle = False, elapsedTime = 3, elapsedTime_emit = 3\<rparr>
           False Session_new)
       = [idleEvent (Num 3) False]"
proof -
  let ?lock = "\<lparr>getTickCount = 5000, isIdle = False, elapsedTime = 70, elapsedTime_emit = 70\<rparr>"
  let ?unlock = "\<lparr>getTickCount = 5000, isIdle = False, elapsedTime = 3, elapsedTime_emit = 3\<rparr>"
  let ?s = "handleLock ?lock True Session_new"
  have h1: "idleStartTime ?s = Num (getTickCount ?unlock)" by (simp add: session_defs Let_def)
  have h2: "idleStartTime Session_new = Undefined" by (simp add: Session_new_def)
  have log: "emitted ?s = [idleEvent (Num 70) True]" by (simp add: session_defs Let_def)
  have new: "emitted Session_new = []" by (simp add: Session_new_def)
  have zero: "emitted (handleLock ?unlock False ?s)
                = emitted ?s @ [idleEvent (Num (elapsedTime_emit ?unlock)) False]"
    using idle_event_elapsedTime [where s = ?s and e = ?unlock] h1 by blast
  have unset: "emitted (handleLock ?unlock False Session_new)
                = emitted Session_new @ [idleEvent (Num (elapsedTime_emit ?unlock)) False]"
    using idle_event_elapsedTime [where s = Session_new and e = ?unlock] h2 by blast
  from h1 h2 zero unset log new show ?thesis by simp
qed

text \<open>
  The last clause of C10 as stated, that a span of exactly 0 is never reported as 0, fails
  when the probe itself reads 0: a lock and an unlock handled at the same tick 5000, with
  the probe reading 0 ms at the unlock, give the span 0 and an event whose
  \<open>elapsedTime\<close> is 0.
\<close>

theorem zero_span_reported_as_zero:
  "js_sub
     (idleEndTime
        (handleLock \<lparr>getTickCount = 5000, isIdle = False, elapsedTime = 0, elapsedTime_emit = 0\<rparr>
           False
           (handleLock \<lparr>getTickCount = 5000, isIdle = False, elapsedTime = 70, elapsedTime_emit = 70\<rparr>
              True Session_new)))
     (idleStartTime
        (handleLock \<lparr>getTickCount = 5000, isIdle = False, elapsedTime = 0, elapsedTime_emit = 0\<rparr>
           False
           (handleLock \<lparr>getTickCount = 5000, isIdle = False, elapsedTime = 70, elapsedTime_emit = 70\<rparr>
              True Session_new)))
     = Num 0
   \<and> emittedSince
        (handleLock \<lparr>getTickCount = 5000, isIdle = False, elapsedTime = 70, elapsedTime_emit = 70\<rparr>
           True Session_new)
        (handleLock \<lparr>getTickCount = 5000, isIdle = False, elapsedTime = 0, elapsedTime_emit = 0\<rparr>
           False
           (handleLock \<lparr>getTickCount = 5000, isIdle = False, elapsedTime = 70, elapsedTime_emit = 70\<rparr>
              True Session_new))
       = [idleEvent (Num 0) False]"
  by (simp add: session_defs Let_def)

section \<open>The heartbeat timer runs exactly while the tracker is idle\<close>

lemma inv_new: "sustain_iff_idle Session_new"
  by (simp add: sustain_iff_idle_def session_defs lastIdle_simps)

lemma inv_poll: "sustain_iff_idle s \<Longrightarrow> sustain_iff_idle (checkIdleStateTimer_callback e s)"
  by (simp add: sustain_iff_idle_def session_defs Let_def lastIdle_simps)

lemma inv_heartbeat:
  "sustain_iff_idle s \<Longrightarrow> isRunning (idleEventTimer s)
     \<Longrightarrow> sustain_iff_idle (idleEventTimer_callback e s)"
  by (simp add: sustain_iff_idle_def session_defs Let_def lastIdle_simps)

lemma inv_handleLock: "sustain_iff_idle s \<Longrightarrow> sustain_iff_idle (handleLock e b s)"
  by (simp add: sustain_iff_idle_def session_defs Let_def lastIdle_simps)

lemma inv_fireSessionEvent: "sustain_iff_idle s \<Longrightarrow> sustain_iff_idle (fireSessionEvent r s)"
  by (simp add: sustain_iff_idle_def session_defs lastIdle_simps)

lemma inv_fireSessionEndEvent:
  "sustain_iff_idle s \<Longrightarrow> sustain_iff_idle (fireSessionEndEvent r s)"
  by (simp add: sustain_iff_idle_def session_defs lastIdle_simps)

lemma inv_sessionChange: "sustain_iff_idle s \<Longrightarrow> sustain_iff_idle (sessionChange e code s)"
  by (simp add: sessionChange_def Let_def inv_fireSessionEvent inv_handleLock)

lemma inv_step: "sustain_iff_idle s \<Longrightarrow> sustain_iff_idle (step p sig s)"
proof (cases sig)
  case (PollTick e)
  assume "sustain_iff_idle s"
  then show ?thesis using PollTick by (simp add: inv_poll)
next
  case (Heartbeat e)
  assume "sustain_iff_idle s"
  then show ?thesis using Heartbeat by (simp add: inv_heartbeat)
next
  case (QueryEndSession lParam)
  assume "sustain_iff_idle s"
  then show ?thesis using QueryEndSession
    by (simp add: afterHook_def on_WM_QUERYENDSESSION_def inv_fireSessionEndEvent
        split: sum.splits)
next
  case (WtsSessionChange e wParam)
  assume "sustain_iff_idle s"
  then show ?thesis using WtsSessionChange
    by (simp add: afterHook_def on_WM_WTSSESSION_CHANGE_def inv_sessionChange
        split: sum.splits)
next
  case (ScreenIsLocked e)
  assume "sustain_iff_idle s"
  then show ?thesis using ScreenIsLocked
    by (simp add: on_screenIsLocked_def inv_fireSessionEvent inv_handleLock)
next
  case (ScreenIsUnlocked e)
  assume "sustain_iff_idle s"
  then show ?thesis using ScreenIsUnlocked
    by (simp add: on_screenIsUnlocked_def inv_fireSessionEvent inv_handleLock)
qed

lemma inv_run: "sustain_iff_idle s \<Longrightarrow> sustain_iff_idle (run p sigs s)"
  by (induction sigs arbitrary: s) (simp_all add: inv_step)

text \<open>
  C5. The heartbeat timer is running exactly when the most recent idle-state-changed event
  of the log has \<open>isIdle\<close> true (and is stopped while the log has none). This holds
  after construction and is kept by every poll tick, by every heartbeat (which fires only
  while its timer runs), by \<open>handleLock(true)\<close> and \<open>handleLock(false)\<close>, and by
  every hook; so it holds after any sequence of signals.
\<close>

theorem sustain_timer_runs_iff_idle:
  "sustain_iff_idle Session_new
   \<and> (sustain_iff_idle s \<longrightarrow> sustain_iff_idle (checkIdleStateTimer_callback e s))
   \<and> (sustain_iff_idle s \<longrightarrow> isRunning (idleEventTimer s)
        \<longrightarrow> sustain_iff_idle (idleEventTimer_callback e s))
   \<and> (sustain_iff_idle s \<longrightarrow> sustain_iff_idle (handleLock e True s))
   \<and> (sustain_iff_idle s \<longrightarrow> sustain_iff_idle (handleLock e False s))
   \<and> (sustain_iff_idle s \<longrightarrow> sustain_iff_idle (step p sig s))
   \<and> sustain_iff_idle (run p sigs Session_new)"
  by (simp add: inv_new inv_poll inv_heartbeat inv_handleLock inv_step inv_run)

theorem sustain_timer_runs_iff_idle_witness:
  "sustain_iff_idle Session_new
   \<and> sustain_iff_idle
        (handleLock \<lparr>getTickCount = 5000, isIdle = False, elapsedTime = 70, elapsedTime_emit = 70\<rparr>
           True Session_new)
   \<and> isRunning (idleEventTimer
        (handleLock \<lparr>getTickCount = 5000, isIdle = False, elapsedTime = 70, elapsedTime_emit = 70\<rparr>
           True Session_new))
   \<and> sustain_iff_idle
        (idleEventTimer_callback
           \<lparr>getTickCount = 65000, isIdle = False, elapsedTime = 10, elapsedTime_emit = 10\<rparr>
           (handleLock \<lparr>getTickCount = 5000, isIdle = False, elapsedTime = 70, elapsedTime_emit = 70\<rparr>
              True Session_new))
   \<and> sustain_iff_idle
        (handleLock \<lparr>getTickCount = 70000, isIdle = False, elapsedTime = 0, elapsedTime_emit = 0\<rparr>
           False
           (handleLock \<lparr>getTickCount = 5000, isIdle = False, elapsedTime = 70, elapsedTime_emit = 70\<rparr>
              True Session_new))
   \<and> sustain_iff_idle
        (checkIdleStateTimer_callback
           \<lparr>getTickCount = 61000, isIdle = True, elapsedTime = 60000, elapsedTime_emit = 60002\<rparr>
           Session_new)
   \<and> sustain_iff_idle
        (step (firstByteHost Darwin)
           (ScreenIsLocked \<lparr>getTickCount = 5000, isIdle = False, elapsedTime = 70, elapsedTime_emit = 70\<rparr>)
           Session_new)"
proof -
  let ?lock = "\<lparr>getTickCount = 5000, isIdle = False, elapsedTime = 70, elapsedTime_emit = 70\<rparr>"
  let ?beat = "\<lparr>getTickCount = 65000, isIdle = False, elapsedTime = 10, elapsedTime_emit = 10\<rparr>"
  let ?unlock = "\<lparr>getTickCount = 70000, isIdle = False, elapsedTime = 0, elapsedTime_emit = 0\<rparr>"
  let ?poll = "\<lparr>getTickCount = 61000, isIdle = True, elapsedTime = 60000, elapsedTime_emit = 60002\<rparr>"
  let ?s = "handleLock ?lock True Session_new"
  have new: "sustain_iff_idle Session_new"
    using sustain_timer_runs_iff_idle by blast
  have locked: "sustain_iff_idle ?s"
    using sustain_timer_runs_iff_idle [where s = Session_new and e = ?lock] by blast
  have running: "isRunning (idleEventTimer ?s)"
    by (simp add: session_defs Let_def)
  have beat: "sustain_iff_idle (idleEventTimer_callback ?beat ?s)"
    using sustain_timer_runs_iff_idle [where s = ?s and e = ?beat] locked running by blast
  have unlocked: "sustain_iff_idle (handleLock ?unlock False ?s)"
    using sustain_timer_runs_iff_idle [where s = ?s and e = ?unlock] locked by blast
  have poll: "sustain_iff_idle (checkIdleStateTimer_callback ?poll Session_new)"
    using sustain_timer_runs_iff_idle [where s = Session_new and e = ?poll] by blast
  have hook: "sustain_iff_idle (step (firstByteHost Darwin) (ScreenIsLocked ?lock) Session_new)"
    using sustain_timer_runs_iff_idle [where s = Session_new and p = "firstByteHost Darwin" and sig = "ScreenIsLocked ?lock"] by blast
  from new locked running beat unlocked poll hook show ?thesis by blast
qed

section \<open>Session-end and session-changed reasons\<close>


































end
